theory Spec2Isabelle
  imports Main
begin

section \<open>The real-time session layer of \<^verbatim>\<open>src/api/index.js\<close>\<close>

text \<open>
  The socket.io part of the server (lines 79 to 175) is embedded as a state machine.
  The state holds the process-wide \<^verbatim>\<open>onlineUsers\<close> set, the sockets that are
  connected and bound to a user, and the \<^verbatim>\<open>ChatSession\<close> collection. Each handler
  is a function from the state before to an outcome: the state after, the events it
  emitted (with their socket.io target), the lines it logged, and the exception that
  escaped it, if any.

  Conventions of the embedding:
  \<^item> The functions \<open>on_...\<close> give a handler that runs uninterrupted: nothing else
    runs between its \<^verbatim>\<open>await\<close> points, and the steps of the state machine are such
    runs. The source does not enforce this. For \<^verbatim>\<open>sendFile\<close> the part up to
    \<^verbatim>\<open>await ChatSession.findOne\<close> and the part up to \<^verbatim>\<open>await session.save()\<close> are
    also given on their own, so that other handlers can be placed between them.
  \<^item> \<^verbatim>\<open>jwt.verify\<close> is a parameter: \<open>None\<close> when it throws, \<open>Some uid\<close> when the
    token verifies and its payload carries the string \<^verbatim>\<open>userId = uid\<close>.
  \<^item> A database operation that rejects is a parameter of the step (\<open>fault\<close>), and
    so is the clock read by \<^verbatim>\<open>new Date()\<close> (\<open>now\<close>).
  \<^item> A field of a client payload is absent (\<^verbatim>\<open>undefined\<close>), \<^verbatim>\<open>null\<close> or a string:
    what the handlers do with a number, a boolean or an object in the place of an id
    depends on the casts of the mongoose schema, which is not part of the sources.
  \<^item> An exception that escapes a handler is recorded in the outcome (\<open>thrown\<close>); what
    Node.js does with it afterwards is not modelled, the state machine goes on from the
    state the handler left.
\<close>

subsection \<open>JavaScript values\<close>

datatype jsval = Undefined | Null | JStr string

datatype error = TypeError

text \<open>Truthiness, as tested by \<^verbatim>\<open>!x\<close> and \<^verbatim>\<open>if (x)\<close>.\<close>

fun truthy :: "jsval \<Rightarrow> bool" where
  "truthy Undefined = False"
| "truthy Null = False"
| "truthy (JStr s) = (s \<noteq> [])"

text \<open>\<^verbatim>\<open>String(x)\<close>, the conversion \<^verbatim>\<open>Array.prototype.sort\<close> applies to its elements.\<close>

fun js_toString :: "jsval \<Rightarrow> string" where
  "js_toString Undefined = ''undefined''"
| "js_toString Null = ''null''"
| "js_toString (JStr s) = s"

text \<open>\<^verbatim>\<open>x.length\<close>: reading a property of \<^verbatim>\<open>undefined\<close> or \<^verbatim>\<open>null\<close> throws.\<close>

fun js_length :: "jsval \<Rightarrow> error + nat" where
  "js_length Undefined = Inl TypeError"
| "js_length Null = Inl TypeError"
| "js_length (JStr s) = Inr (length s)"

text \<open>The order of \<^verbatim>\<open><\<close> on strings: lexicographic on the code units.\<close>

fun str_lt :: "string \<Rightarrow> string \<Rightarrow> bool" where
  "str_lt [] [] = False"
| "str_lt [] (y # ys) = True"
| "str_lt (x # xs) [] = False"
| "str_lt (x # xs) (y # ys) =
     (if (of_char x :: nat) < of_char y then True
      else if (of_char y :: nat) < of_char x then False
      else str_lt xs ys)"

text \<open>
  \<^verbatim>\<open>[x, y].sort()\<close>: \<^verbatim>\<open>undefined\<close> goes last, the other elements are compared as
  strings, and the sort is stable.
\<close>

definition sort2 :: "jsval \<Rightarrow> jsval \<Rightarrow> jsval list" where
  "sort2 x y =
     (if x = Undefined then [y, x]
      else if y = Undefined then [x, y]
      else if str_lt (js_toString y) (js_toString x) then [y, x]
      else [x, y])"

text \<open>
  The payload of a client event is an object; destructuring \<^verbatim>\<open>({ k }) => ...\<close> reads
  the property \<open>k\<close>, which is \<^verbatim>\<open>undefined\<close> when the object has no such key.
\<close>

type_synonym payload = "(string \<times> jsval) list"

definition field :: "payload \<Rightarrow> string \<Rightarrow> jsval" where
  "field p k = (case map_of p k of None \<Rightarrow> Undefined | Some v \<Rightarrow> v)"

text \<open>
  An object built by the server: its properties in the order of the object literal.
  A value is one taken from a client payload or the socket, a boolean, a \<^verbatim>\<open>Date\<close>
  (milliseconds), or the array of user ids of \<^verbatim>\<open>[...onlineUsers]\<close>.
\<close>

datatype jsfield = Val jsval | Flag bool | Date nat | Strs "string list"

type_synonym jsobj = "(string \<times> jsfield) list"

subsection \<open>State\<close>

text \<open>
  A \<^verbatim>\<open>Set\<close> iterates in insertion order, so \<^verbatim>\<open>onlineUsers\<close> is a list without
  duplicates: \<^verbatim>\<open>add\<close> appends a new element, \<^verbatim>\<open>delete\<close> removes it.
\<close>

definition set_add :: "string \<Rightarrow> string list \<Rightarrow> string list" where
  "set_add x xs = (if x \<in> set xs then xs else xs @ [x])"

definition set_delete :: "string \<Rightarrow> string list \<Rightarrow> string list" where
  "set_delete x xs = removeAll x xs"

text \<open>A connected socket: its id and \<^verbatim>\<open>socket.userId\<close>, set once in the handshake.\<close>

record sock =
  sid :: string
  userId :: string

text \<open>
  A stored message, as a subdocument of a \<^verbatim>\<open>ChatSession\<close>. The mongoose schema
  (\<^verbatim>\<open>models/ChatSession\<close>) is not part of the sources; the fields are those the
  handlers read and write.
\<close>

record message =
  senderId :: string
  receiverId :: string
  fileData :: string
  fileName :: string
  fileType :: string
  isFile :: bool
  timestamp :: nat
  seen :: bool

record chatSession =
  participants :: "string list"
  messages :: "message list"

record server =
  onlineUsers :: "string list"
  sockets :: "sock list"
  db :: "chatSession list"

definition init :: server where
  "init = \<lparr>onlineUsers = [], sockets = [], db = []\<rparr>"

subsection \<open>Emitting\<close>

text \<open>
  \<^verbatim>\<open>io.emit\<close> goes to every connected socket, \<^verbatim>\<open>socket.emit\<close> to the socket itself,
  \<^verbatim>\<open>io.to(room)\<close> to the sockets in the room and \<^verbatim>\<open>socket.to(room)\<close> to the sockets
  in the room except the emitting one. A socket is in the room of its own id
  (socket.io joins it there) and in the room of its user id (line 90).
\<close>

datatype target = ToAll | ToSocket string | ToRoom jsval | ToRoomExcept jsval string

type_synonym emission = "target \<times> string \<times> jsobj"

definition in_room :: "sock \<Rightarrow> jsval \<Rightarrow> bool" where
  "in_room s r = (r = JStr (sid s) \<or> r = JStr (userId s))"

fun recipients :: "sock list \<Rightarrow> target \<Rightarrow> string list" where
  "recipients ss ToAll = map sid ss"
| "recipients ss (ToSocket i) = map sid (filter (\<lambda>s. sid s = i) ss)"
| "recipients ss (ToRoom r) = map sid (filter (\<lambda>s. in_room s r) ss)"
| "recipients ss (ToRoomExcept r i) = map sid (filter (\<lambda>s. in_room s r \<and> sid s \<noteq> i) ss)"

text \<open>What each socket receives: the emissions resolved against the connected sockets.\<close>

definition deliveries :: "sock list \<Rightarrow> emission list \<Rightarrow> (string \<times> string \<times> jsobj) list" where
  "deliveries ss es = concat (map (\<lambda>(t, name, obj). map (\<lambda>i. (i, name, obj)) (recipients ss t)) es)"

record outcome =
  state :: server
  emitted :: "emission list"
  logged :: "string list"
  thrown :: "error option"

subsection \<open>The database\<close>

datatype fault = NoFault | FindOneFails | SaveFails

text \<open>
  \<^verbatim>\<open>findOne\<close> or \<^verbatim>\<open>save\<close> may reject; the fault says which one does, when the
  handler gets that far.

  \<^verbatim>\<open>ChatSession.findOne({ participants })\<close>: the first document whose participants
  array equals the given one, with the documents before and after it. The stored
  participants are strings, so an array with \<^verbatim>\<open>undefined\<close> or \<^verbatim>\<open>null\<close> in it
  matches no document.
\<close>

definition findOne :: "chatSession list \<Rightarrow> jsval list
    \<Rightarrow> (chatSession list \<times> chatSession \<times> chatSession list) option" where
  "findOne d key = List.extract (\<lambda>c. map JStr (participants c) = key) d"

text \<open>
  Modelled from the spec: the schema of \<^verbatim>\<open>models/ChatSession\<close> is missing. Pushing
  an object on \<^verbatim>\<open>session.messages\<close> casts it to a message subdocument; a message has
  a sender, a receiver, a timestamp, the file payload and \<^verbatim>\<open>seen\<close>, which defaults
  to false.
\<close>

definition str_of :: "jsobj \<Rightarrow> string \<Rightarrow> string" where
  "str_of obj k = (case map_of obj k of Some (Val v) \<Rightarrow> js_toString v | _ \<Rightarrow> [])"

definition cast_message :: "jsobj \<Rightarrow> message" where
  "cast_message obj =
     \<lparr>senderId = str_of obj ''senderId'',
      receiverId = str_of obj ''receiverId'',
      fileData = str_of obj ''fileData'',
      fileName = str_of obj ''fileName'',
      fileType = str_of obj ''fileType'',
      isFile = (case map_of obj ''isFile'' of Some (Flag b) \<Rightarrow> b | _ \<Rightarrow> False),
      timestamp = (case map_of obj ''timestamp'' of Some (Date t) \<Rightarrow> t | _ \<Rightarrow> 0),
      seen = (case map_of obj ''seen'' of Some (Flag b) \<Rightarrow> b | _ \<Rightarrow> False)\<rparr>"

subsection \<open>The handlers\<close>

text \<open>
  \<^verbatim>\<open>io.on('connection')\<close>, lines 81 to 99. When the token does not verify the socket
  is disconnected and the handler returns before any listener is registered.
\<close>

definition on_connection :: "(jsval \<Rightarrow> string option) \<Rightarrow> server \<Rightarrow> string \<Rightarrow> jsval \<Rightarrow> outcome" where
  "on_connection jwt_verify st i token =
     (case jwt_verify token of
        None \<Rightarrow>
          \<lparr>state = st, emitted = [],
           logged = [''User connected:'', ''Invalid token on socket connection:''],
           thrown = None\<rparr>
      | Some uid \<Rightarrow>
          (let users = set_add uid (onlineUsers st) in
           \<lparr>state = st\<lparr>onlineUsers := users,
                        sockets := sockets st @ [\<lparr>sid = i, userId = uid\<rparr>]\<rparr>,
            emitted = [(ToAll, ''userOnline'', [(''userId'', Val (JStr uid))]),
                       (ToSocket i, ''onlineUsers'', [(''users'', Strs users)])],
            logged = [''User connected:''],
            thrown = None\<rparr>))"

text \<open>\<^verbatim>\<open>socket.on('typing')\<close> and \<^verbatim>\<open>socket.on('stopTyping')\<close>, lines 101 to 107.\<close>

definition on_typing :: "server \<Rightarrow> sock \<Rightarrow> payload \<Rightarrow> outcome" where
  "on_typing st s p =
     (let rid = field p ''receiverId'' in
      \<lparr>state = st,
       emitted = [(ToRoomExcept rid (sid s), ''typing'',
                   [(''senderId'', Val (JStr (userId s))), (''receiverId'', Val rid)])],
       logged = [], thrown = None\<rparr>)"

definition on_stopTyping :: "server \<Rightarrow> sock \<Rightarrow> payload \<Rightarrow> outcome" where
  "on_stopTyping st s p =
     (let rid = field p ''receiverId'' in
      \<lparr>state = st,
       emitted = [(ToRoomExcept rid (sid s), ''stopTyping'',
                   [(''senderId'', Val (JStr (userId s))), (''receiverId'', Val rid)])],
       logged = [], thrown = None\<rparr>)"

text \<open>
  \<^verbatim>\<open>socket.on('sendFile')\<close>, lines 109 to 146. Line 114 reads \<^verbatim>\<open>fileData.length\<close>
  before the validation of line 116, outside the \<^verbatim>\<open>try\<close>. This is the handler when
  nothing runs between its two awaits: the read of line 123 and the save of line 138
  see the same database.
\<close>

definition newMessage :: "sock \<Rightarrow> jsval \<Rightarrow> jsval \<Rightarrow> jsval \<Rightarrow> jsval \<Rightarrow> nat \<Rightarrow> jsobj" where
  "newMessage s rid fdata fname ftype now =
     [(''senderId'', Val (JStr (userId s))),
      (''receiverId'', Val rid),
      (''fileData'', Val fdata),
      (''fileName'', Val fname),
      (''fileType'', Val ftype),
      (''isFile'', Flag True),
      (''timestamp'', Date now)]"

definition on_sendFile :: "fault \<Rightarrow> nat \<Rightarrow> server \<Rightarrow> sock \<Rightarrow> payload \<Rightarrow> outcome" where
  "on_sendFile flt now st s p =
     (let rid = field p ''receiverId'';
          fdata = field p ''fileData'';
          fname = field p ''fileName'';
          ftype = field p ''fileType'';
          log0 = [''Received sendFile event from:'', ''Receiver ID:'', ''File Name:'', ''File Type:'']
      in case js_length fdata of
           Inl e \<Rightarrow> \<lparr>state = st, emitted = [], logged = log0, thrown = Some e\<rparr>
         | Inr n \<Rightarrow>
             (let log1 = log0 @ [''File Data Size:''] in
              if \<not> truthy rid \<or> \<not> truthy fdata \<or> \<not> truthy fname \<or> \<not> truthy ftype
              then \<lparr>state = st, emitted = [],
                    logged = log1 @ [''Missing file data fields''], thrown = None\<rparr>
              else if flt = FindOneFails
              then \<lparr>state = st, emitted = [],
                    logged = log1 @ [''Error processing sendFile:''], thrown = None\<rparr>
              else
                (let key = sort2 (JStr (userId s)) rid;
                     msg = newMessage s rid fdata fname ftype now;
                     d = (case findOne (db st) key of
                            None \<Rightarrow>
                              db st @ [\<lparr>participants = map js_toString key,
                                        messages = [cast_message msg]\<rparr>]
                          | Some (before, session, after) \<Rightarrow>
                              before @ session\<lparr>messages := messages session @ [cast_message msg]\<rparr> # after)
                 in if flt = SaveFails
                    then \<lparr>state = st, emitted = [],
                          logged = log1 @ [''Error processing sendFile:''], thrown = None\<rparr>
                    else \<lparr>state = st\<lparr>db := d\<rparr>,
                          emitted = [(ToRoom rid, ''receiveFile'', msg),
                                     (ToRoom (JStr (userId s)), ''receiveFile'', msg)],
                          logged = log1 @ [''File saved to DB''],
                          thrown = None\<rparr>)))"

text \<open>
  The two halves of the \<^verbatim>\<open>try\<close> block of \<^verbatim>\<open>sendFile\<close>, for a payload that passed the
  validation and a database that answers. The first half is the read of line 123, in the
  state at that moment. The second half is lines 124 to 138, in the state at the moment
  of the save, which other handlers may have changed since the read. When the read found
  nothing, \<^verbatim>\<open>save\<close> inserts the new document without looking at the collection:
  nothing in the source makes the participants unique (the connection even sets
  \<^verbatim>\<open>autoIndex: false\<close>, line 74). When the read found a document, \<^verbatim>\<open>save\<close> writes
  the handler's copy, with the message pushed, in the place of that document; documents
  are only ever appended to the collection, so the place is the position it was read at.
\<close>

definition sendFile_lookup :: "server \<Rightarrow> sock \<Rightarrow> payload
    \<Rightarrow> (chatSession list \<times> chatSession \<times> chatSession list) option" where
  "sendFile_lookup st s p = findOne (db st) (sort2 (JStr (userId s)) (field p ''receiverId''))"

definition sendFile_save :: "nat \<Rightarrow> server \<Rightarrow> sock \<Rightarrow> payload
    \<Rightarrow> (chatSession list \<times> chatSession \<times> chatSession list) option \<Rightarrow> server" where
  "sendFile_save now st s p found =
     (let rid = field p ''receiverId'';
          msg = newMessage s rid (field p ''fileData'') (field p ''fileName'')
                  (field p ''fileType'') now
      in case found of
           None \<Rightarrow>
             st\<lparr>db := db st @ [\<lparr>participants = map js_toString (sort2 (JStr (userId s)) rid),
                                messages = [cast_message msg]\<rparr>]\<rparr>
         | Some (before, session, after) \<Rightarrow>
             st\<lparr>db := (db st)[length before :=
                         session\<lparr>messages := messages session @ [cast_message msg]\<rparr>]\<rparr>)"

text \<open>
  \<^verbatim>\<open>socket.on('markAsSeen')\<close>, lines 148 to 166. \<^verbatim>\<open>{ ...msg, seen: true }\<close> is the
  message with \<^verbatim>\<open>seen\<close> set.
\<close>

definition mark :: "jsval \<Rightarrow> message \<Rightarrow> message" where
  "mark sender msg =
     (if JStr (senderId msg) = sender \<and> \<not> seen msg then msg\<lparr>seen := True\<rparr> else msg)"

definition on_markAsSeen :: "fault \<Rightarrow> server \<Rightarrow> sock \<Rightarrow> payload \<Rightarrow> outcome" where
  "on_markAsSeen flt st s p =
     (let sender = field p ''senderId'';
          receiver = userId s;
          key = sort2 sender (JStr receiver)
      in if flt = FindOneFails
         then \<lparr>state = st, emitted = [],
               logged = [''Error marking messages as seen:''], thrown = None\<rparr>
         else case findOne (db st) key of
                None \<Rightarrow> \<lparr>state = st, emitted = [], logged = [], thrown = None\<rparr>
              | Some (before, session, after) \<Rightarrow>
                  (let session' = session\<lparr>messages := map (mark sender) (messages session)\<rparr>
                   in if flt = SaveFails
                      then \<lparr>state = st, emitted = [],
                            logged = [''Error marking messages as seen:''], thrown = None\<rparr>
                      else \<lparr>state = st\<lparr>db := before @ session' # after\<rparr>,
                            emitted = [(ToRoom sender, ''messageSeen'',
                                        [(''senderId'', Val sender),
                                         (''receiverId'', Val (JStr receiver))])],
                            logged = [], thrown = None\<rparr>))"

text \<open>The read of line 152, in the state at that moment.\<close>

definition markAsSeen_lookup :: "server \<Rightarrow> sock \<Rightarrow> payload
    \<Rightarrow> (chatSession list \<times> chatSession \<times> chatSession list) option" where
  "markAsSeen_lookup st s p = findOne (db st) (sort2 (field p ''senderId'') (JStr (userId s)))"

text \<open>
  \<^verbatim>\<open>socket.on('disconnect')\<close>, lines 168 to 174. socket.io has removed the socket
  from the namespace when the listener runs.
\<close>

definition on_disconnect :: "server \<Rightarrow> sock \<Rightarrow> outcome" where
  "on_disconnect st s =
     (let st1 = st\<lparr>sockets := filter (\<lambda>x. sid x \<noteq> sid s) (sockets st)\<rparr> in
      if userId s \<noteq> []
      then \<lparr>state = st1\<lparr>onlineUsers := set_delete (userId s) (onlineUsers st1)\<rparr>,
            emitted = [(ToAll, ''userOffline'', [(''userId'', Val (JStr (userId s)))])],
            logged = [''User disconnected:''], thrown = None\<rparr>
      else \<lparr>state = st1, emitted = [], logged = [''User disconnected:''], thrown = None\<rparr>)"

subsection \<open>The server as a state machine\<close>

text \<open>
  A client event carries its argument, \<open>None\<close> when the client sent none: destructuring
  \<^verbatim>\<open>undefined\<close> in the parameter list throws.
\<close>

datatype event =
    Typing "payload option"
  | StopTyping "payload option"
  | SendFile "payload option"
  | MarkAsSeen "payload option"
  | Disconnect

datatype input = Connection string jsval | Event string event

definition idle :: "server \<Rightarrow> outcome" where
  "idle st = \<lparr>state = st, emitted = [], logged = [], thrown = None\<rparr>"

definition throw :: "server \<Rightarrow> error \<Rightarrow> outcome" where
  "throw st e = \<lparr>state = st, emitted = [], logged = [], thrown = Some e\<rparr>"

fun on_event :: "fault \<Rightarrow> nat \<Rightarrow> server \<Rightarrow> sock \<Rightarrow> event \<Rightarrow> outcome" where
  "on_event flt now st s (Typing None) = throw st TypeError"
| "on_event flt now st s (Typing (Some p)) = on_typing st s p"
| "on_event flt now st s (StopTyping None) = throw st TypeError"
| "on_event flt now st s (StopTyping (Some p)) = on_stopTyping st s p"
| "on_event flt now st s (SendFile None) = throw st TypeError"
| "on_event flt now st s (SendFile (Some p)) = on_sendFile flt now st s p"
| "on_event flt now st s (MarkAsSeen None) = throw st TypeError"
| "on_event flt now st s (MarkAsSeen (Some p)) = on_markAsSeen flt st s p"
| "on_event flt now st s Disconnect = on_disconnect st s"

text \<open>
  One step of the server. socket.io gives every connection a fresh id, so a connection
  under the id of a connected socket does not occur and is skipped. The listeners exist
  only on a socket whose token verified: an event for any other socket id, the
  \<^verbatim>\<open>disconnect\<close> of a rejected socket included, runs no handler.
\<close>

definition step :: "(jsval \<Rightarrow> string option) \<Rightarrow> fault \<Rightarrow> nat \<Rightarrow> server \<Rightarrow> input \<Rightarrow> outcome" where
  "step jwt_verify flt now st inp =
     (case inp of
        Connection i token \<Rightarrow>
          (if i \<in> sid ` set (sockets st) then idle st else on_connection jwt_verify st i token)
      | Event i ev \<Rightarrow>
          (case find (\<lambda>s. sid s = i) (sockets st) of
             None \<Rightarrow> idle st
           | Some s \<Rightarrow> on_event flt now st s ev))"

fun run :: "(jsval \<Rightarrow> string option) \<Rightarrow> server \<Rightarrow> (fault \<times> nat \<times> input) list \<Rightarrow> server" where
  "run jwt_verify st [] = st"
| "run jwt_verify st ((flt, now, inp) # rest) =
     run jwt_verify (state (step jwt_verify flt now st inp)) rest"

subsection \<open>Presence\<close>

text \<open>
  What the presence set guarantees: socket ids are unique, and a user in the set (other
  than the empty string, which line 170 treats as no user) has a connected socket.
\<close>

definition presence_inv :: "server \<Rightarrow> bool" where
  "presence_inv st =
     (distinct (map sid (sockets st))
      \<and> (\<forall>u\<in>set (onlineUsers st). u \<noteq> [] \<longrightarrow> (\<exists>s\<in>set (sockets st). userId s = u)))"

subsection \<open>A concrete scenario\<close>

text \<open>
  Three users with one token each; every other token is rejected. Alice, Bob and Carol
  connect, then Alice sends Bob a file.
\<close>

definition demo_verify :: "jsval \<Rightarrow> string option" where
  "demo_verify t =
     (if t = JStr ''tokenA'' then Some ''A''
      else if t = JStr ''tokenB'' then Some ''B''
      else if t = JStr ''tokenC'' then Some ''C''
      else None)"

definition demo_file :: payload where
  "demo_file = [(''receiverId'', JStr ''B''), (''fileData'', JStr ''aGk=''),
                (''fileName'', JStr ''a.txt''), (''fileType'', JStr ''text/plain'')]"

definition alice :: sock where
  "alice = \<lparr>sid = ''s1'', userId = ''A''\<rparr>"

definition bob :: sock where
  "bob = \<lparr>sid = ''s2'', userId = ''B''\<rparr>"

definition carol :: sock where
  "carol = \<lparr>sid = ''s3'', userId = ''C''\<rparr>"

definition st_sent :: server where
  "st_sent = run demo_verify init
     [(NoFault, 0, Connection ''s1'' (JStr ''tokenA'')),
      (NoFault, 1, Connection ''s2'' (JStr ''tokenB'')),
      (NoFault, 2, Connection ''s3'' (JStr ''tokenC'')),
      (NoFault, 3, Event ''s1'' (SendFile (Some demo_file)))]"

text \<open>The three users online, before the file is sent, and the object Alice's file becomes.\<close>

definition st_online :: server where
  "st_online = run demo_verify init
     [(NoFault, 0, Connection ''s1'' (JStr ''tokenA'')),
      (NoFault, 1, Connection ''s2'' (JStr ''tokenB'')),
      (NoFault, 2, Connection ''s3'' (JStr ''tokenC''))]"

definition demo_msg :: jsobj where
  "demo_msg = [(''senderId'', Val (JStr ''A'')),
     (''receiverId'', Val (JStr ''B'')),
     (''fileData'', Val (JStr ''aGk='')),
     (''fileName'', Val (JStr ''a.txt'')),
     (''fileType'', Val (JStr ''text/plain'')),
     (''isFile'', Flag True),
     (''timestamp'', Date 3)]"


text \<open>A file for Carol whose payload names Bob as its sender.\<close>

definition spoofed_file :: payload where
  "spoofed_file = [(''senderId'', JStr ''B''), (''receiverId'', JStr ''C''),
                   (''fileData'', JStr ''aGk=''), (''fileName'', JStr ''a.txt''),
                   (''fileType'', JStr ''text/plain'')]"

text \<open>
  Bob's first file for Alice races Alice's first file for Bob: both handlers read the
  empty collection, then Bob's handler saves, then Alice's.
\<close>

definition reply_file :: payload where
  "reply_file = [(''receiverId'', JStr ''A''), (''fileData'', JStr ''eW8=''),
                 (''fileName'', JStr ''b.txt''), (''fileType'', JStr ''text/plain'')]"

definition st_race :: server where
  "st_race = sendFile_save 4
               (sendFile_save 3 st_online bob reply_file (sendFile_lookup st_online bob reply_file))
               alice demo_file (sendFile_lookup st_online alice demo_file)"

text \<open>
  A harmless interleaving: between the read and the save of Alice's handler, Carol
  sends Alice a file.
\<close>

definition st_between :: server where
  "st_between = state (on_sendFile NoFault 3 st_online carol reply_file)"

text \<open>Alice connected on two devices.\<close>

definition st_two :: server where
  "st_two = run demo_verify init
     [(NoFault, 0, Connection ''s1'' (JStr ''tokenA'')),
      (NoFault, 1, Connection ''s2'' (JStr ''tokenA''))]"

section \<open>Properties\<close>

subsection \<open>Evaluation\<close>

lemmas model_defs = step_def on_connection_def on_typing_def on_stopTyping_def on_sendFile_def
  on_markAsSeen_def on_disconnect_def idle_def throw_def init_def set_add_def set_delete_def
  deliveries_def findOne_def field_def newMessage_def cast_message_def str_of_def sort2_def
  in_room_def mark_def Let_def extract_Nil_code extract_Cons_code

lemma st_sent_eq:
  "st_sent = \<lparr>onlineUsers = [''A'', ''B'', ''C''],
      sockets = [alice, bob, carol],
      db = [\<lparr>participants = [''A'', ''B''],
             messages = [\<lparr>senderId = ''A'', receiverId = ''B'', fileData = ''aGk='',
                          fileName = ''a.txt'', fileType = ''text/plain'', isFile = True,
                          timestamp = 3, seen = False\<rparr>]\<rparr>]\<rparr>"
  by (simp add: st_sent_def demo_verify_def demo_file_def alice_def bob_def carol_def model_defs)

lemma st_online_eq:
  "st_online = \<lparr>onlineUsers = [''A'', ''B'', ''C''], sockets = [alice, bob, carol], db = []\<rparr>"
  by (simp add: st_online_def demo_verify_def alice_def bob_def carol_def model_defs)

lemma find_sid_None: "i \<notin> sid ` set ss \<Longrightarrow> find (\<lambda>s. sid s = i) ss = None"
  by (auto simp: find_None_iff)

lemma filter_sid_fresh: "i \<notin> sid ` set ss \<Longrightarrow> filter (\<lambda>s. sid s = i) ss = []"
  by (induction ss) auto

subsection \<open>Rejected connections\<close>

text \<open>
  Claim C8. A connection whose token does not verify is closed without any effect: the
  state, the presence set included, is what it was, nothing is emitted, and no listener
  is registered on the socket, so that no later event of it, its \<^verbatim>\<open>disconnect\<close>
  included, runs a handler or emits \<^verbatim>\<open>userOffline\<close>. A run with the rejected
  connection and its disconnect ends in the same state as the run without them, so no
  later snapshot can show it.
\<close>

theorem invalid_token_rejected:
  assumes "jwt_verify token = None" and "i \<notin> sid ` set (sockets st)"
  shows "step jwt_verify flt now st (Connection i token) =
           \<lparr>state = st, emitted = [],
            logged = [''User connected:'', ''Invalid token on socket connection:''],
            thrown = None\<rparr>
       \<and> step jwt_verify flt' now' (state (step jwt_verify flt now st (Connection i token)))
            (Event i ev) = idle st
       \<and> run jwt_verify st
            ((flt, now, Connection i token) # (flt', now', Event i Disconnect) # rest)
          = run jwt_verify st rest"
  using assms by (simp add: step_def on_connection_def find_sid_None idle_def)

text \<open>
  Witness for C8: a forged token on the fresh socket \<open>s9\<close> of the scenario, where
  three users are online.
\<close>

theorem invalid_token_rejected_witness:
  "demo_verify (JStr ''forged'') = None \<and> ''s9'' \<notin> sid ` set (sockets st_sent)
   \<and> emitted (step demo_verify NoFault 4 st_sent (Connection ''s9'' (JStr ''forged''))) = []
   \<and> state (step demo_verify NoFault 4 st_sent (Connection ''s9'' (JStr ''forged''))) = st_sent
   \<and> emitted (step demo_verify NoFault 5 st_sent (Event ''s9'' Disconnect)) = []"
  using invalid_token_rejected
    [of demo_verify "JStr ''forged''" "''s9''" st_sent NoFault 4 NoFault 5 Disconnect "[]"]
  by (simp add: st_sent_eq alice_def bob_def carol_def demo_verify_def model_defs)

subsection \<open>The snapshot sent to a new connection\<close>

text \<open>
  Claim C3, as stated, fails: when A connects while nobody is online, the snapshot A
  receives is \<^verbatim>\<open>{users: ['A']}\<close>, not \<^verbatim>\<open>{users: []}\<close>, because line 92 adds A to
  the set before line 94 copies it.
\<close>

theorem snapshot_counterexample:
  "deliveries (sockets (state (step demo_verify NoFault 0 init (Connection ''s1'' (JStr ''tokenA'')))))
              (emitted (step demo_verify NoFault 0 init (Connection ''s1'' (JStr ''tokenA''))))
   = [(''s1'', ''userOnline'', [(''userId'', Val (JStr ''A''))]),
      (''s1'', ''onlineUsers'', [(''users'', Strs [''A''])])]
   \<and> (''s1'', ''onlineUsers'', [(''users'', Strs [])])
       \<notin> set (deliveries
                (sockets (state (step demo_verify NoFault 0 init (Connection ''s1'' (JStr ''tokenA'')))))
                (emitted (step demo_verify NoFault 0 init (Connection ''s1'' (JStr ''tokenA'')))))"
  by (simp add: demo_verify_def model_defs)

text \<open>
  Claim C3, amended. After a connection is authenticated and bound, that connection and
  no other receives exactly one \<^verbatim>\<open>onlineUsers\<close> event, and it lists the whole
  presence set as it is after the bind: the users that were in it before and the
  connecting user itself.
\<close>

theorem snapshot_after_bind:
  assumes "jwt_verify token = Some uid" and "i \<notin> sid ` set (sockets st)"
  shows "filter (\<lambda>(j, name, obj). name = ''onlineUsers'')
           (deliveries (sockets (state (step jwt_verify flt now st (Connection i token))))
                       (emitted (step jwt_verify flt now st (Connection i token))))
         = [(i, ''onlineUsers'',
             [(''users'', Strs (onlineUsers (state (step jwt_verify flt now st (Connection i token)))))])]
       \<and> set (onlineUsers (state (step jwt_verify flt now st (Connection i token))))
         = insert uid (set (onlineUsers st))"
  using assms
  by (auto simp: step_def on_connection_def deliveries_def filter_sid_fresh set_add_def Let_def)

text \<open>Witness for C3: Alice connects to the empty server and is sent \<^verbatim>\<open>{users: ['A']}\<close>.\<close>

theorem snapshot_after_bind_witness:
  "demo_verify (JStr ''tokenA'') = Some ''A'' \<and> ''s1'' \<notin> sid ` set (sockets init)
   \<and> filter (\<lambda>(j, name, obj). name = ''onlineUsers'')
        (deliveries (sockets (state (step demo_verify NoFault 0 init (Connection ''s1'' (JStr ''tokenA'')))))
                    (emitted (step demo_verify NoFault 0 init (Connection ''s1'' (JStr ''tokenA'')))))
      = [(''s1'', ''onlineUsers'', [(''users'', Strs [''A''])])]"
  using snapshot_after_bind [of demo_verify "JStr ''tokenA''" "''A''" "''s1''" init NoFault 0]
  by (simp add: demo_verify_def model_defs)

subsection \<open>Malformed \<^verbatim>\<open>sendFile\<close> payloads\<close>

text \<open>
  Claim C2 at a failing input: Alice sends \<^verbatim>\<open>sendFile\<close> without \<^verbatim>\<open>fileData\<close>. The
  handler does not reach the validation of line 116: line 114 reads
  \<^verbatim>\<open>fileData.length\<close> of \<^verbatim>\<open>undefined\<close>, and the TypeError escapes the handler,
  which never logs \<^verbatim>\<open>Missing file data fields\<close>.
\<close>

theorem sendFile_without_fileData_throws:
  "thrown (step demo_verify NoFault 7
             (run demo_verify init [(NoFault, 0, Connection ''s1'' (JStr ''tokenA''))])
             (Event ''s1'' (SendFile (Some [(''receiverId'', JStr ''B''),
                                            (''fileName'', JStr ''a.txt''),
                                            (''fileType'', JStr ''text/plain'')]))))
   = Some TypeError
   \<and> ''Missing file data fields''
       \<notin> set (logged (step demo_verify NoFault 7
             (run demo_verify init [(NoFault, 0, Connection ''s1'' (JStr ''tokenA''))])
             (Event ''s1'' (SendFile (Some [(''receiverId'', JStr ''B''),
                                            (''fileName'', JStr ''a.txt''),
                                            (''fileType'', JStr ''text/plain'')])))))"
  by (simp add: demo_verify_def model_defs)

text \<open>
  The rest of the claim holds on every payload with a missing or empty field: nothing is
  stored and nothing is emitted, whether the handler throws or returns.
\<close>

lemma sendFile_invalid_no_effect:
  "\<not> truthy (field p ''receiverId'') \<or> \<not> truthy (field p ''fileData'')
     \<or> \<not> truthy (field p ''fileName'') \<or> \<not> truthy (field p ''fileType'')
   \<Longrightarrow> state (on_sendFile flt now st s p) = st \<and> emitted (on_sendFile flt now st s p) = []"
  by (auto simp: on_sendFile_def Let_def split: sum.splits)

subsection \<open>\<^verbatim>\<open>markAsSeen\<close> without a conversation\<close>

text \<open>
  Claim C9. When no stored conversation has the sorted pair of the named sender and the
  caller as its participants, \<^verbatim>\<open>markAsSeen\<close> leaves the state as it is (no
  conversation is created and no message changes), emits nothing and raises nothing;
  when the database answers, it does nothing at all.
\<close>

theorem markAsSeen_without_conversation:
  assumes "findOne (db st) (sort2 (field p ''senderId'') (JStr (userId s))) = None"
  shows "state (on_markAsSeen flt st s p) = st
       \<and> emitted (on_markAsSeen flt st s p) = []
       \<and> thrown (on_markAsSeen flt st s p) = None
       \<and> (flt = NoFault \<longrightarrow> on_markAsSeen flt st s p = idle st)"
  using assms by (simp add: on_markAsSeen_def Let_def idle_def)

text \<open>
  Witness for C9: Carol marks Alice's messages as seen; the only stored conversation is
  the one of Alice and Bob.
\<close>

theorem markAsSeen_without_conversation_witness:
  "findOne (db st_sent) (sort2 (field [(''senderId'', JStr ''A'')] ''senderId'') (JStr (userId carol)))
     = None
   \<and> NoFault = NoFault
   \<and> on_markAsSeen NoFault st_sent carol [(''senderId'', JStr ''A'')] = idle st_sent"
  using markAsSeen_without_conversation [of st_sent "[(''senderId'', JStr ''A'')]" carol NoFault]
  by (simp add: st_sent_eq carol_def findOne_def field_def sort2_def extract_Nil_code extract_Cons_code)

subsection \<open>Persistence failures\<close>

text \<open>
  Claim C5. When the database operation of a \<^verbatim>\<open>sendFile\<close> fails, the handler emits
  nothing and changes nothing, so the sockets stay connected; on a payload that passed
  the validation its last log line is the error, and nothing is thrown. When the
  database operation of a \<^verbatim>\<open>markAsSeen\<close> fails, no \<^verbatim>\<open>messageSeen\<close> is emitted and
  the stored messages are unchanged.
\<close>

theorem persistence_failure_no_fanout:
  assumes "flt \<noteq> NoFault"
  shows "emitted (on_sendFile flt now st s p) = []
       \<and> state (on_sendFile flt now st s p) = st
       \<and> (truthy (field p ''receiverId'') \<and> truthy (field p ''fileData'')
            \<and> truthy (field p ''fileName'') \<and> truthy (field p ''fileType'')
          \<longrightarrow> last (logged (on_sendFile flt now st s p)) = ''Error processing sendFile:''
              \<and> thrown (on_sendFile flt now st s p) = None)
       \<and> emitted (on_markAsSeen flt st s' q) = []
       \<and> state (on_markAsSeen flt st s' q) = st
       \<and> thrown (on_markAsSeen flt st s' q) = None"
  using assms
  by (cases flt; cases "field p ''fileData''")
     (auto simp: on_sendFile_def on_markAsSeen_def Let_def split: option.splits)

text \<open>
  Witness for C5: \<^verbatim>\<open>session.save()\<close> rejects while Alice sends a second file, and
  while Bob marks Alice's messages as seen.
\<close>

theorem persistence_failure_no_fanout_witness:
  "SaveFails \<noteq> NoFault
   \<and> truthy (field demo_file ''receiverId'') \<and> truthy (field demo_file ''fileData'')
   \<and> truthy (field demo_file ''fileName'') \<and> truthy (field demo_file ''fileType'')
   \<and> emitted (on_sendFile SaveFails 9 st_sent alice demo_file) = []
   \<and> logged (on_sendFile SaveFails 9 st_sent alice demo_file)
       = [''Received sendFile event from:'', ''Receiver ID:'', ''File Name:'', ''File Type:'',
          ''File Data Size:'', ''Error processing sendFile:'']
   \<and> sockets (state (on_sendFile SaveFails 9 st_sent alice demo_file)) = [alice, bob, carol]
   \<and> emitted (on_markAsSeen SaveFails st_sent bob [(''senderId'', JStr ''A'')]) = []
   \<and> db (state (on_markAsSeen SaveFails st_sent bob [(''senderId'', JStr ''A'')])) = db st_sent"
  using persistence_failure_no_fanout
    [of SaveFails 9 st_sent alice demo_file bob "[(''senderId'', JStr ''A'')]"]
  by (simp add: st_sent_eq alice_def bob_def demo_file_def model_defs)

subsection \<open>Presence and connections\<close>

lemma find_sid_Some: "find (\<lambda>x. sid x = i) ss = Some s \<Longrightarrow> s \<in> set ss \<and> sid s = i"
  by (auto simp: find_Some_iff)

lemma presence_inv_init: "presence_inv init"
  by (simp add: presence_inv_def init_def)

lemma presence_inv_connection:
  assumes "presence_inv st" and "i \<notin> sid ` set (sockets st)"
  shows "presence_inv (state (on_connection v st i token))"
  using assms
  by (cases "v token") (auto simp: presence_inv_def on_connection_def set_add_def Let_def)

lemma presence_inv_disconnect:
  assumes "presence_inv st" and "s \<in> set (sockets st)"
  shows "presence_inv (state (on_disconnect st s))"
proof -
  have keep: "\<exists>x\<in>set (filter (\<lambda>x. sid x \<noteq> sid s) (sockets st)). userId x = u"
    if "u \<in> set (onlineUsers st)" "u \<noteq> []" "u \<noteq> userId s" for u
  proof -
    from assms(1) that obtain x where x: "x \<in> set (sockets st)" "userId x = u"
      by (auto simp: presence_inv_def)
    with that(3) have "x \<noteq> s" by auto
    with assms x have "sid x \<noteq> sid s"
      by (auto simp: presence_inv_def distinct_map inj_on_def)
    with x show ?thesis by auto
  qed
  have d: "distinct (map sid (filter (\<lambda>x. sid x \<noteq> sid s) (sockets st)))"
    using assms(1) by (simp add: presence_inv_def distinct_map_filter)
  show ?thesis
    using keep d by (auto simp: presence_inv_def on_disconnect_def set_delete_def Let_def)
qed

lemma on_event_presence:
  "ev \<noteq> Disconnect \<Longrightarrow> onlineUsers (state (on_event flt now st s ev)) = onlineUsers st
     \<and> sockets (state (on_event flt now st s ev)) = sockets st"
  by (cases "(flt, now, st, s, ev)" rule: on_event.cases)
     (auto simp: on_typing_def on_stopTyping_def on_sendFile_def on_markAsSeen_def throw_def Let_def
           split: sum.splits option.splits)

lemma presence_inv_step:
  assumes "presence_inv st"
  shows "presence_inv (state (step v flt now st inp))"
proof (cases inp)
  case (Connection i token)
  with assms show ?thesis
    by (simp add: step_def idle_def presence_inv_connection)
next
  case (Event i ev)
  show ?thesis
  proof (cases "find (\<lambda>s. sid s = i) (sockets st)")
    case None
    with Event assms show ?thesis by (simp add: step_def idle_def)
  next
    case (Some s)
    show ?thesis
    proof (cases "ev = Disconnect")
      case True
      from find_sid_Some [OF Some] have "s \<in> set (sockets st)" by simp
      with True Event Some assms show ?thesis
        by (simp add: step_def presence_inv_disconnect)
    next
      case False
      from on_event_presence [OF False, of flt now st s] assms Event Some show ?thesis
        by (simp add: step_def presence_inv_def)
    qed
  qed
qed

lemma presence_inv_run: "presence_inv st \<Longrightarrow> presence_inv (run v st ins)"
  by (induction ins arbitrary: st) (auto simp: presence_inv_step)

text \<open>
  Claim C1, as stated, fails: the handlers keep no count of the connections of a user.
  When Alice, online on socket \<open>s1\<close>, connects a second socket \<open>s2\<close>,
  \<^verbatim>\<open>userOnline\<close> is broadcast again; when \<open>s1\<close> then disconnects, Alice is
  deleted from the presence set although \<open>s2\<close> is still connected, and \<open>s2\<close> is
  sent \<^verbatim>\<open>userOffline\<close> for its own user.
\<close>

theorem presence_counterexample:
  "deliveries (sockets st_two)
     (emitted (step demo_verify NoFault 1
                 (run demo_verify init [(NoFault, 0, Connection ''s1'' (JStr ''tokenA''))])
                 (Connection ''s2'' (JStr ''tokenA''))))
   = [(''s1'', ''userOnline'', [(''userId'', Val (JStr ''A''))]),
      (''s2'', ''userOnline'', [(''userId'', Val (JStr ''A''))]),
      (''s2'', ''onlineUsers'', [(''users'', Strs [''A''])])]
   \<and> sockets (state (step demo_verify NoFault 2 st_two (Event ''s1'' Disconnect)))
       = [\<lparr>sid = ''s2'', userId = ''A''\<rparr>]
   \<and> onlineUsers (state (step demo_verify NoFault 2 st_two (Event ''s1'' Disconnect))) = []
   \<and> deliveries (sockets (state (step demo_verify NoFault 2 st_two (Event ''s1'' Disconnect))))
        (emitted (step demo_verify NoFault 2 st_two (Event ''s1'' Disconnect)))
       = [(''s2'', ''userOffline'', [(''userId'', Val (JStr ''A''))])]"
  by (simp add: st_two_def demo_verify_def model_defs)

text \<open>
  Claim C1, amended. In every state the server reaches, a user in the presence set
  (the empty id apart) has at least one live connection. The converse holds right after a bind only: every bind
  puts the user in the set and broadcasts \<^verbatim>\<open>userOnline\<close>, and every unbind of a
  bound connection deletes its user from the set and broadcasts \<^verbatim>\<open>userOffline\<close>,
  whatever other connections the user has.
\<close>

theorem presence_of_bind_and_unbind:
  "(\<forall>u\<in>set (onlineUsers (run v init ins)). u \<noteq> [] \<longrightarrow>
       (\<exists>s\<in>set (sockets (run v init ins)). userId s = u))
   \<and> (v token = Some uid \<and> i \<notin> sid ` set (sockets st) \<longrightarrow>
        uid \<in> set (onlineUsers (state (step v flt now st (Connection i token))))
        \<and> (ToAll, ''userOnline'', [(''userId'', Val (JStr uid))])
            \<in> set (emitted (step v flt now st (Connection i token))))
   \<and> (find (\<lambda>x. sid x = j) (sockets st) = Some s \<and> userId s \<noteq> [] \<longrightarrow>
        userId s \<notin> set (onlineUsers (state (step v flt now st (Event j Disconnect))))
        \<and> (ToAll, ''userOffline'', [(''userId'', Val (JStr (userId s)))])
            \<in> set (emitted (step v flt now st (Event j Disconnect))))"
proof -
  have "presence_inv (run v init ins)"
    by (simp add: presence_inv_run presence_inv_init)
  then have a: "\<forall>u\<in>set (onlineUsers (run v init ins)). u \<noteq> [] \<longrightarrow>
       (\<exists>s\<in>set (sockets (run v init ins)). userId s = u)"
    by (simp add: presence_inv_def)
  have b: "v token = Some uid \<and> i \<notin> sid ` set (sockets st) \<longrightarrow>
        uid \<in> set (onlineUsers (state (step v flt now st (Connection i token))))
        \<and> (ToAll, ''userOnline'', [(''userId'', Val (JStr uid))])
            \<in> set (emitted (step v flt now st (Connection i token)))"
    by (auto simp: step_def on_connection_def set_add_def Let_def)
  have c: "find (\<lambda>x. sid x = j) (sockets st) = Some s \<and> userId s \<noteq> [] \<longrightarrow>
        userId s \<notin> set (onlineUsers (state (step v flt now st (Event j Disconnect))))
        \<and> (ToAll, ''userOffline'', [(''userId'', Val (JStr (userId s)))])
            \<in> set (emitted (step v flt now st (Event j Disconnect)))"
    by (auto simp: step_def on_disconnect_def set_delete_def Let_def)
  from a b c show ?thesis by blast
qed

text \<open>
  Witness for C1: in the scenario Bob is online and connected; Alice binds a further
  socket; Alice's socket disconnects.
\<close>

theorem presence_of_bind_and_unbind_witness:
  "''B'' \<in> set (onlineUsers st_sent) \<and> ''B'' \<noteq> [] \<and> (\<exists>s\<in>set (sockets st_sent). userId s = ''B'')
   \<and> demo_verify (JStr ''tokenA'') = Some ''A'' \<and> ''s4'' \<notin> sid ` set (sockets st_sent)
   \<and> ''A'' \<in> set (onlineUsers (state (step demo_verify NoFault 4 st_sent (Connection ''s4'' (JStr ''tokenA'')))))
   \<and> (ToAll, ''userOnline'', [(''userId'', Val (JStr ''A''))])
        \<in> set (emitted (step demo_verify NoFault 4 st_sent (Connection ''s4'' (JStr ''tokenA''))))
   \<and> find (\<lambda>x. sid x = ''s1'') (sockets st_sent) = Some alice \<and> userId alice \<noteq> []
   \<and> userId alice \<notin> set (onlineUsers (state (step demo_verify NoFault 4 st_sent (Event ''s1'' Disconnect))))
   \<and> (ToAll, ''userOffline'', [(''userId'', Val (JStr (userId alice)))])
        \<in> set (emitted (step demo_verify NoFault 4 st_sent (Event ''s1'' Disconnect)))"
  using presence_of_bind_and_unbind
    [of demo_verify "[(NoFault, 0, Connection ''s1'' (JStr ''tokenA'')),
      (NoFault, 1, Connection ''s2'' (JStr ''tokenB'')),
      (NoFault, 2, Connection ''s3'' (JStr ''tokenC'')),
      (NoFault, 3, Event ''s1'' (SendFile (Some demo_file)))]"
      "JStr ''tokenA''" "''A''" "''s4''" st_sent NoFault 4 "''s1''" alice]
  by (simp add: st_sent_def [symmetric]) (simp add: st_sent_eq alice_def bob_def carol_def demo_verify_def model_defs)

subsection \<open>Looking a conversation up\<close>

lemma findOne_SomeD:
  "findOne d key = Some (before, session, after)
   \<Longrightarrow> d = before @ session # after \<and> map JStr (participants session) = key
       \<and> (\<forall>c\<in>set before. map JStr (participants c) \<noteq> key)"
  by (auto simp: findOne_def extract_Some_iff)

lemma findOne_SomeI:
  "map JStr (participants session) = key \<Longrightarrow> \<forall>c\<in>set before. map JStr (participants c) \<noteq> key
   \<Longrightarrow> findOne (before @ session # after) key = Some (before, session, after)"
  by (auto simp: findOne_def extract_Some_iff)

lemma js_toString_JStr: "map js_toString (map JStr ps) = ps"
  by (induction ps) auto

lemma sort2_strings:
  "truthy r \<Longrightarrow> map JStr (map js_toString (sort2 (JStr u) r)) = sort2 (JStr u) r"
  by (cases r) (auto simp: sort2_def)

text \<open>The database after a successful \<^verbatim>\<open>sendFile\<close>.\<close>

lemma sendFile_db:
  assumes "truthy (field p ''receiverId'')" and "truthy (field p ''fileData'')"
    and "truthy (field p ''fileName'')" and "truthy (field p ''fileType'')"
  shows "\<exists>before session after.
           db (state (on_sendFile NoFault now st s p)) = before @ session # after
         \<and> map JStr (participants session) = sort2 (JStr (userId s)) (field p ''receiverId'')
         \<and> (\<forall>c\<in>set before. map JStr (participants c) \<noteq> sort2 (JStr (userId s)) (field p ''receiverId''))
         \<and> messages session \<noteq> []
         \<and> last (messages session)
             = cast_message (newMessage s (field p ''receiverId'') (field p ''fileData'')
                               (field p ''fileName'') (field p ''fileType'') now)
         \<and> (\<forall>c\<in>set (before @ after). c \<in> set (db st))
         \<and> (\<forall>m\<in>set (butlast (messages session)). \<exists>c\<in>set (db st). m \<in> set (messages c))"
proof -
  let ?key = "sort2 (JStr (userId s)) (field p ''receiverId'')"
  from assms(2) obtain n where len: "js_length (field p ''fileData'') = Inr n"
    by (cases "field p ''fileData''") auto
  show ?thesis
  proof (cases "findOne (db st) ?key")
    case None
    then have "\<forall>c\<in>set (db st). map JStr (participants c) \<noteq> ?key"
      by (auto simp: findOne_def extract_None_iff)
    with None assms len sort2_strings [OF assms(1), of "userId s"] show ?thesis
      by (intro exI [of _ "db st"] exI [of _ "\<lparr>participants = map js_toString ?key, messages = [cast_message (newMessage s (field p ''receiverId'') (field p ''fileData'')
                               (field p ''fileName'') (field p ''fileType'') now)]\<rparr>"] exI [of _ "[]"])
         (simp add: on_sendFile_def Let_def)
  next
    case (Some t)
    then obtain b c a where t: "t = (b, c, a)" by (cases t) auto
    from findOne_SomeD [OF Some [unfolded t]] Some t assms len show ?thesis
      by (intro exI [of _ b] exI [of _ "c\<lparr>messages := messages c @ [cast_message (newMessage s (field p ''receiverId'') (field p ''fileData'')
                               (field p ''fileName'') (field p ''fileType'') now)]\<rparr>"] exI [of _ a])
         (auto simp: on_sendFile_def Let_def)
  qed
qed

lemma cast_newMessage:
  "cast_message (newMessage s r d n t now)
   = \<lparr>senderId = userId s, receiverId = js_toString r, fileData = js_toString d,
      fileName = js_toString n, fileType = js_toString t, isFile = True, timestamp = now,
      seen = False\<rparr>"
  by (simp add: cast_message_def newMessage_def str_of_def)

lemma room_delivery:
  assumes "x \<in> set ss" and "in_room x r" and "(ToRoom r, name, obj) \<in> set es"
  shows "(sid x, name, obj) \<in> set (deliveries ss es)"
proof -
  from assms(1,2) have "(sid x, name, obj)
      \<in> set ((\<lambda>(t, name, obj). map (\<lambda>i. (i, name, obj)) (recipients ss t)) (ToRoom r, name, obj))"
    by auto
  with assms(3) show ?thesis
    unfolding deliveries_def set_concat set_map by blast
qed

subsection \<open>The message built by \<^verbatim>\<open>sendFile\<close>\<close>

text \<open>
  Claim C4, as stated, fails: the object emitted as \<^verbatim>\<open>receiveFile\<close> is the literal
  of lines 128 to 136, which has no \<^verbatim>\<open>seen\<close> property. Only the stored copy gets
  one, from the schema.
\<close>

theorem receiveFile_payload_counterexample:
  "emitted (step demo_verify NoFault 3 st_online (Event ''s1'' (SendFile (Some demo_file))))
     = [(ToRoom (JStr ''B''), ''receiveFile'', demo_msg),
        (ToRoom (JStr ''A''), ''receiveFile'', demo_msg)]
   \<and> map_of demo_msg ''seen'' = None
   \<and> map_of demo_msg ''seen'' \<noteq> Some (Flag False)"
  by (simp add: st_online_eq alice_def bob_def carol_def demo_file_def demo_msg_def model_defs)

text \<open>
  Claim C4, amended. A successful \<^verbatim>\<open>sendFile\<close> emits \<^verbatim>\<open>receiveFile\<close> twice, to the
  room of the receiver and to the room of the sender, with the payload
  \<^verbatim>\<open>{senderId, receiverId, fileData, fileName, fileType, isFile: true, timestamp}\<close>,
  which has no \<^verbatim>\<open>seen\<close> field; the message it appends to the conversation of the
  sorted pair is stored with \<^verbatim>\<open>seen = false\<close>.
\<close>

theorem sendFile_builds_message:
  assumes "truthy (field p ''receiverId'')" and "truthy (field p ''fileData'')"
    and "truthy (field p ''fileName'')" and "truthy (field p ''fileType'')"
  shows "emitted (on_sendFile NoFault now st s p)
         = [(ToRoom (field p ''receiverId''), ''receiveFile'',
               [(''senderId'', Val (JStr (userId s))),
                (''receiverId'', Val (field p ''receiverId'')),
                (''fileData'', Val (field p ''fileData'')),
                (''fileName'', Val (field p ''fileName'')),
                (''fileType'', Val (field p ''fileType'')),
                (''isFile'', Flag True),
                (''timestamp'', Date now)]),
            (ToRoom (JStr (userId s)), ''receiveFile'',
               [(''senderId'', Val (JStr (userId s))),
                (''receiverId'', Val (field p ''receiverId'')),
                (''fileData'', Val (field p ''fileData'')),
                (''fileName'', Val (field p ''fileName'')),
                (''fileType'', Val (field p ''fileType'')),
                (''isFile'', Flag True),
                (''timestamp'', Date now)])]
       \<and> (\<exists>before session after.
             db (state (on_sendFile NoFault now st s p)) = before @ session # after
           \<and> map JStr (participants session) = sort2 (JStr (userId s)) (field p ''receiverId'')
           \<and> messages session \<noteq> []
           \<and> last (messages session)
               = \<lparr>senderId = userId s,
                  receiverId = js_toString (field p ''receiverId''),
                  fileData = js_toString (field p ''fileData''),
                  fileName = js_toString (field p ''fileName''),
                  fileType = js_toString (field p ''fileType''),
                  isFile = True, timestamp = now, seen = False\<rparr>)"
proof -
  from assms(2) obtain n where len: "js_length (field p ''fileData'') = Inr n"
    by (cases "field p ''fileData''") auto
  from assms len have e: "emitted (on_sendFile NoFault now st s p)
         = [(ToRoom (field p ''receiverId''), ''receiveFile'',
               newMessage s (field p ''receiverId'') (field p ''fileData'')
                               (field p ''fileName'') (field p ''fileType'') now),
            (ToRoom (JStr (userId s)), ''receiveFile'',
               newMessage s (field p ''receiverId'') (field p ''fileData'')
                               (field p ''fileName'') (field p ''fileType'') now)]"
    by (simp add: on_sendFile_def Let_def)
  from sendFile_db [OF assms, of now st s] obtain before session after where
    d: "db (state (on_sendFile NoFault now st s p)) = before @ session # after"
       "map JStr (participants session) = sort2 (JStr (userId s)) (field p ''receiverId'')"
       "messages session \<noteq> []"
       "last (messages session)
             = cast_message (newMessage s (field p ''receiverId'') (field p ''fileData'')
                               (field p ''fileName'') (field p ''fileType'') now)"
    by blast
  from e have "emitted (on_sendFile NoFault now st s p)
         = [(ToRoom (field p ''receiverId''), ''receiveFile'',
               [(''senderId'', Val (JStr (userId s))),
                (''receiverId'', Val (field p ''receiverId'')),
                (''fileData'', Val (field p ''fileData'')),
                (''fileName'', Val (field p ''fileName'')),
                (''fileType'', Val (field p ''fileType'')),
                (''isFile'', Flag True),
                (''timestamp'', Date now)]),
            (ToRoom (JStr (userId s)), ''receiveFile'',
               [(''senderId'', Val (JStr (userId s))),
                (''receiverId'', Val (field p ''receiverId'')),
                (''fileData'', Val (field p ''fileData'')),
                (''fileName'', Val (field p ''fileName'')),
                (''fileType'', Val (field p ''fileType'')),
                (''isFile'', Flag True),
                (''timestamp'', Date now)])]"
    by (simp add: newMessage_def)
  moreover from d have "\<exists>before session after.
             db (state (on_sendFile NoFault now st s p)) = before @ session # after
           \<and> map JStr (participants session) = sort2 (JStr (userId s)) (field p ''receiverId'')
           \<and> messages session \<noteq> []
           \<and> last (messages session)
               = \<lparr>senderId = userId s,
                  receiverId = js_toString (field p ''receiverId''),
                  fileData = js_toString (field p ''fileData''),
                  fileName = js_toString (field p ''fileName''),
                  fileType = js_toString (field p ''fileType''),
                  isFile = True, timestamp = now, seen = False\<rparr>"
    unfolding cast_newMessage by blast
  ultimately show ?thesis by blast
qed

text \<open>Witness for C4: Alice sends Bob the file of the scenario.\<close>

theorem sendFile_builds_message_witness:
  "truthy (field demo_file ''receiverId'') \<and> truthy (field demo_file ''fileData'')
   \<and> truthy (field demo_file ''fileName'') \<and> truthy (field demo_file ''fileType'')
   \<and> emitted (on_sendFile NoFault 3 st_online alice demo_file)
       = [(ToRoom (JStr ''B''), ''receiveFile'', demo_msg),
          (ToRoom (JStr ''A''), ''receiveFile'', demo_msg)]
   \<and> db (state (on_sendFile NoFault 3 st_online alice demo_file))
       = [\<lparr>participants = [''A'', ''B''],
           messages = [\<lparr>senderId = ''A'', receiverId = ''B'', fileData = ''aGk='',
                        fileName = ''a.txt'', fileType = ''text/plain'', isFile = True,
                        timestamp = 3, seen = False\<rparr>]\<rparr>]"
  using sendFile_builds_message [of demo_file 3 st_online alice]
  by (simp add: st_online_eq alice_def demo_file_def demo_msg_def model_defs)

text \<open>
  The two emissions reach every socket in the room of the receiver and every socket of
  the sender.
\<close>

lemma sendFile_delivered:
  assumes "truthy (field p ''receiverId'')" and "truthy (field p ''fileData'')"
    and "truthy (field p ''fileName'')" and "truthy (field p ''fileType'')"
    and "x \<in> set (sockets st)"
    and "in_room x (field p ''receiverId'') \<or> in_room x (JStr (userId s))"
  shows "(sid x, ''receiveFile'',
          newMessage s (field p ''receiverId'') (field p ''fileData'')
            (field p ''fileName'') (field p ''fileType'') now)
         \<in> set (deliveries (sockets (state (on_sendFile NoFault now st s p)))
                             (emitted (on_sendFile NoFault now st s p)))"
proof -
  let ?msg = "newMessage s (field p ''receiverId'') (field p ''fileData'')
                (field p ''fileName'') (field p ''fileType'') now"
  from assms(2) obtain n where len: "js_length (field p ''fileData'') = Inr n"
    by (cases "field p ''fileData''") auto
  from assms(1-4) len have e: "emitted (on_sendFile NoFault now st s p)
      = [(ToRoom (field p ''receiverId''), ''receiveFile'', ?msg),
         (ToRoom (JStr (userId s)), ''receiveFile'', ?msg)]"
    and ss: "sockets (state (on_sendFile NoFault now st s p)) = sockets st"
    by (simp_all add: on_sendFile_def Let_def)
  from assms(6) show ?thesis
  proof
    assume "in_room x (field p ''receiverId'')"
    with assms(5) show ?thesis
      unfolding ss by (rule room_delivery) (simp add: e)
  next
    assume "in_room x (JStr (userId s))"
    with assms(5) show ?thesis
      unfolding ss by (rule room_delivery) (simp add: e)
  qed
qed

subsection \<open>Marking messages as seen\<close>


lemma markAsSeen_found:
  assumes "findOne (db st) (sort2 (field p ''senderId'') (JStr (userId s))) = Some (before, session, after)"
  shows "on_markAsSeen NoFault st s p =
          \<lparr>state = st\<lparr>db := before @ session\<lparr>messages := map (mark (field p ''senderId'')) (messages session)\<rparr> # after\<rparr>,
           emitted = [(ToRoom (field p ''senderId''), ''messageSeen'',
                       [(''senderId'', Val (field p ''senderId'')),
                        (''receiverId'', Val (JStr (userId s)))])],
           logged = [], thrown = None\<rparr>"
  using assms by (simp add: on_markAsSeen_def Let_def)




subsection \<open>The key of a conversation\<close>

lemma str_lt_asym: "str_lt a b \<Longrightarrow> \<not> str_lt b a"
  by (induction a b rule: str_lt.induct) (auto split: if_splits)

lemma str_lt_total: "\<not> str_lt a b \<Longrightarrow> \<not> str_lt b a \<Longrightarrow> a = b"
  by (induction a b rule: str_lt.induct) (auto split: if_splits)

lemma str_lt_lexord:
  "str_lt a b \<longleftrightarrow> (a, b) \<in> lexord {(x, y). (of_char x :: nat) < of_char y}"
  by (induction a b rule: str_lt.induct) auto

lemma sort2_comm: "sort2 (JStr a) (JStr b) = sort2 (JStr b) (JStr a)"
  using str_lt_asym [of a b] str_lt_asym [of b a] str_lt_total [of a b]
  by (auto simp: sort2_def)

lemma on_sendFile_uninterrupted:
  assumes "truthy (field p ''receiverId'')" and "truthy (field p ''fileData'')"
    and "truthy (field p ''fileName'')" and "truthy (field p ''fileType'')"
  shows "state (on_sendFile NoFault now st s p) = sendFile_save now st s p (sendFile_lookup st s p)"
proof -
  from assms(2) obtain n where len: "js_length (field p ''fileData'') = Inr n"
    by (cases "field p ''fileData''") auto
  show ?thesis
  proof (cases "findOne (db st) (sort2 (JStr (userId s)) (field p ''receiverId''))")
    case None
    with assms len show ?thesis
      by (simp add: on_sendFile_def sendFile_save_def sendFile_lookup_def Let_def)
  next
    case (Some t)
    then obtain b c a where t: "t = (b, c, a)" by (cases t) auto
    from findOne_SomeD [OF Some [unfolded t]] have d: "db st = b @ c # a" by simp
    with Some t assms len show ?thesis
      by (simp add: on_sendFile_def sendFile_save_def sendFile_lookup_def Let_def)
  qed
qed

lemma on_markAsSeen_lookup:
  "on_markAsSeen NoFault st s p =
     (case markAsSeen_lookup st s p of
        None \<Rightarrow> idle st
      | Some (before, session, after) \<Rightarrow>
          \<lparr>state = st\<lparr>db := before @ session\<lparr>messages := map (mark (field p ''senderId'')) (messages session)\<rparr> # after\<rparr>,
           emitted = [(ToRoom (field p ''senderId''), ''messageSeen'',
                       [(''senderId'', Val (field p ''senderId'')),
                        (''receiverId'', Val (JStr (userId s)))])],
           logged = [], thrown = None\<rparr>)"
  by (simp add: on_markAsSeen_def markAsSeen_lookup_def idle_def Let_def split: option.splits)

lemma sendFile_save_lookup:
  assumes rid: "truthy (field p ''receiverId'')"
    and same: "map_option (\<lambda>(b, c, a). (length b, c)) (sendFile_lookup st1 s p)
             = map_option (\<lambda>(b, c, a). (length b, c)) (sendFile_lookup st0 s p)"
  shows "\<exists>before session after.
           sendFile_lookup (sendFile_save now st1 s p (sendFile_lookup st0 s p)) s p
             = Some (before, session, after)
         \<and> messages session \<noteq> []
         \<and> last (messages session)
             = cast_message (newMessage s (field p ''receiverId'') (field p ''fileData'')
                               (field p ''fileName'') (field p ''fileType'') now)"
proof -
  let ?key = "sort2 (JStr (userId s)) (field p ''receiverId'')"
  let ?m = "cast_message (newMessage s (field p ''receiverId'') (field p ''fileData'')
                               (field p ''fileName'') (field p ''fileType'') now)"
  show ?thesis
  proof (cases "sendFile_lookup st0 s p")
    case None
    with same have n1: "findOne (db st1) ?key = None"
      by (simp add: sendFile_lookup_def)
    then have no: "\<forall>c\<in>set (db st1). map JStr (participants c) \<noteq> ?key"
      by (auto simp: findOne_def extract_None_iff)
    let ?c = "\<lparr>participants = map js_toString ?key, messages = [?m]\<rparr>"
    have "map JStr (participants ?c) = ?key"
      using sort2_strings [OF rid, of "userId s"] by simp
    from this no have "findOne (db st1 @ ?c # []) ?key = Some (db st1, ?c, [])"
      by (rule findOne_SomeI)
    with None show ?thesis
      by (simp add: sendFile_save_def sendFile_lookup_def Let_def)
  next
    case (Some t0)
    then obtain b0 c0 a0 where t0: "t0 = (b0, c0, a0)" by (cases t0) auto
    from same Some t0 obtain b1 a1 where
      f1: "findOne (db st1) ?key = Some (b1, c0, a1)" and len: "length b1 = length b0"
      by (auto simp: sendFile_lookup_def)
    from findOne_SomeD [OF f1] have d1: "db st1 = b1 @ c0 # a1"
      and k: "map JStr (participants c0) = ?key"
      and no: "\<forall>c\<in>set b1. map JStr (participants c) \<noteq> ?key"
      by simp_all
    let ?c = "c0\<lparr>messages := messages c0 @ [?m]\<rparr>"
    from k have "map JStr (participants ?c) = ?key" by simp
    with no have "findOne (b1 @ ?c # a1) ?key = Some (b1, ?c, a1)"
      by (intro findOne_SomeI) simp_all
    moreover from d1 len have "(db st1)[length b0 := ?c] = b1 @ ?c # a1"
      by (simp add: list_update_append)
    ultimately show ?thesis
      using Some t0 by (simp add: sendFile_save_def sendFile_lookup_def Let_def)
  qed
qed

lemma st_between_eq:
  "st_between = \<lparr>onlineUsers = [''A'', ''B'', ''C''], sockets = [alice, bob, carol],
      db = [\<lparr>participants = [''A'', ''C''],
             messages = [\<lparr>senderId = ''C'', receiverId = ''A'', fileData = ''eW8='',
                          fileName = ''b.txt'', fileType = ''text/plain'', isFile = True,
                          timestamp = 3, seen = False\<rparr>]\<rparr>]\<rparr>"
  by (simp add: st_between_def st_online_eq alice_def bob_def carol_def reply_file_def model_defs)

text \<open>
  Claim C7, as stated, fails when two handlers interleave at their awaits. Alice's first
  file for Bob and Bob's first file for Alice both find no conversation (line 123
  returns null for both before either has saved), so each handler creates one (line 125)
  and saves it: the pair has two conversations, the two \<^verbatim>\<open>sendFile\<close> did not get the
  same one. Every later lookup of the pair, in either order, returns the first of the
  two, Bob's; Bob's \<^verbatim>\<open>markAsSeen\<close> naming Alice addresses it and leaves Alice's
  message, which is in the other one, unseen.
\<close>

theorem conversation_race_counterexample:
  "sendFile_lookup st_online alice demo_file = None
   \<and> sendFile_lookup st_online bob reply_file = None
   \<and> db st_race
       = [\<lparr>participants = [''A'', ''B''],
           messages = [\<lparr>senderId = ''B'', receiverId = ''A'', fileData = ''eW8='',
                        fileName = ''b.txt'', fileType = ''text/plain'', isFile = True,
                        timestamp = 3, seen = False\<rparr>]\<rparr>,
          \<lparr>participants = [''A'', ''B''],
           messages = [\<lparr>senderId = ''A'', receiverId = ''B'', fileData = ''aGk='',
                        fileName = ''a.txt'', fileType = ''text/plain'', isFile = True,
                        timestamp = 4, seen = False\<rparr>]\<rparr>]
   \<and> sendFile_lookup st_race alice demo_file = Some ([], hd (db st_race), tl (db st_race))
   \<and> sendFile_lookup st_race bob reply_file = Some ([], hd (db st_race), tl (db st_race))
   \<and> markAsSeen_lookup st_race bob [(''senderId'', JStr ''A'')]
       = Some ([], hd (db st_race), tl (db st_race))
   \<and> db (state (on_markAsSeen NoFault st_race bob [(''senderId'', JStr ''A'')])) = db st_race"
  by (simp add: st_race_def st_online_eq sendFile_lookup_def sendFile_save_def markAsSeen_lookup_def
        alice_def bob_def demo_file_def reply_file_def model_defs)

text \<open>
  Claim C7, amended. The key of a pair of users is the same in both orders, it is the
  pair in lexicographic order, and a lookup finds the same conversation under both.
  When A sends B a file and, at the moment of the save, the conversation of the pair is
  still the one the handler read (or there is still none), whatever else was written in
  between, then the lookup of A's \<^verbatim>\<open>sendFile\<close>, the lookup of B's \<^verbatim>\<open>markAsSeen\<close>
  naming A and the lookup of a \<^verbatim>\<open>sendFile\<close> from B to A all return, in the state after
  the save, the one conversation that holds A's message.
\<close>

theorem conversation_key_symmetric:
  "sort2 (JStr a) (JStr b) = sort2 (JStr b) (JStr a)
   \<and> findOne d (sort2 (JStr a) (JStr b)) = findOne d (sort2 (JStr b) (JStr a))
   \<and> sort2 (JStr a) (JStr b)
      = (if (b, a) \<in> lexord {(x, y). (of_char x :: nat) < of_char y}
         then [JStr b, JStr a] else [JStr a, JStr b])
   \<and> (truthy (field p ''receiverId'') \<and> truthy (field p ''fileData'')
        \<and> truthy (field p ''fileName'') \<and> truthy (field p ''fileType'')
        \<and> field p ''receiverId'' = JStr (userId s') \<and> field q ''senderId'' = JStr (userId s)
        \<and> field p' ''receiverId'' = JStr (userId s)
        \<and> map_option (\<lambda>(b, c, a). (length b, c)) (sendFile_lookup st1 s p)
            = map_option (\<lambda>(b, c, a). (length b, c)) (sendFile_lookup st0 s p)
      \<longrightarrow> (\<exists>before session after.
             sendFile_lookup (sendFile_save now st1 s p (sendFile_lookup st0 s p)) s p
               = Some (before, session, after)
           \<and> markAsSeen_lookup (sendFile_save now st1 s p (sendFile_lookup st0 s p)) s' q
               = Some (before, session, after)
           \<and> sendFile_lookup (sendFile_save now st1 s p (sendFile_lookup st0 s p)) s' p'
               = Some (before, session, after)
           \<and> messages session \<noteq> []
           \<and> senderId (last (messages session)) = userId s
           \<and> timestamp (last (messages session)) = now))"
proof -
  have key: "sort2 (JStr a) (JStr b)
      = (if (b, a) \<in> lexord {(x, y). (of_char x :: nat) < of_char y}
         then [JStr b, JStr a] else [JStr a, JStr b])"
    by (simp add: sort2_def str_lt_lexord)
  have e2e: "\<exists>before session after.
             sendFile_lookup (sendFile_save now st1 s p (sendFile_lookup st0 s p)) s p
               = Some (before, session, after)
           \<and> markAsSeen_lookup (sendFile_save now st1 s p (sendFile_lookup st0 s p)) s' q
               = Some (before, session, after)
           \<and> sendFile_lookup (sendFile_save now st1 s p (sendFile_lookup st0 s p)) s' p'
               = Some (before, session, after)
           \<and> messages session \<noteq> []
           \<and> senderId (last (messages session)) = userId s
           \<and> timestamp (last (messages session)) = now"
    if v: "truthy (field p ''receiverId'')"
      and r: "field p ''receiverId'' = JStr (userId s')" and q: "field q ''senderId'' = JStr (userId s)"
      and r': "field p' ''receiverId'' = JStr (userId s)"
      and same: "map_option (\<lambda>(b, c, a). (length b, c)) (sendFile_lookup st1 s p)
            = map_option (\<lambda>(b, c, a). (length b, c)) (sendFile_lookup st0 s p)"
  proof -
    let ?st2 = "sendFile_save now st1 s p (sendFile_lookup st0 s p)"
    from sendFile_save_lookup [OF v same, of now] obtain before session after where
      f1: "sendFile_lookup ?st2 s p = Some (before, session, after)"
      and ne: "messages session \<noteq> []"
      and l: "last (messages session)
             = cast_message (newMessage s (field p ''receiverId'') (field p ''fileData'')
                               (field p ''fileName'') (field p ''fileType'') now)"
      by blast
    from f1 r q have f2: "markAsSeen_lookup ?st2 s' q = Some (before, session, after)"
      by (simp add: sendFile_lookup_def markAsSeen_lookup_def)
    from f1 r r' have f3: "sendFile_lookup ?st2 s' p' = Some (before, session, after)"
      by (simp add: sendFile_lookup_def sort2_comm [of "userId s'" "userId s"])
    from l have "senderId (last (messages session)) = userId s"
      and "timestamp (last (messages session)) = now"
      by (simp_all add: cast_newMessage)
    with f1 f2 f3 ne show ?thesis by blast
  qed
  have "findOne d (sort2 (JStr a) (JStr b)) = findOne d (sort2 (JStr b) (JStr a))"
    by (simp add: sort2_comm [of a b])
  with sort2_comm [of a b] key e2e show ?thesis by blast
qed

text \<open>
  Witness for C7: Alice sends Bob a file while Carol's file for Alice is saved between
  the read and the save; Bob's lookups return the conversation with Alice's message.
\<close>

theorem conversation_key_symmetric_witness:
  "sort2 (JStr ''B'') (JStr ''A'') = [JStr ''A'', JStr ''B'']
   \<and> sort2 (JStr ''A'') (JStr ''B'') = [JStr ''A'', JStr ''B'']
   \<and> truthy (field demo_file ''receiverId'') \<and> truthy (field demo_file ''fileData'')
   \<and> truthy (field demo_file ''fileName'') \<and> truthy (field demo_file ''fileType'')
   \<and> field demo_file ''receiverId'' = JStr (userId bob)
   \<and> field [(''senderId'', JStr ''A'')] ''senderId'' = JStr (userId alice)
   \<and> field reply_file ''receiverId'' = JStr (userId alice)
   \<and> map_option (\<lambda>(b, c, a). (length b, c)) (sendFile_lookup st_between alice demo_file)
       = map_option (\<lambda>(b, c, a). (length b, c)) (sendFile_lookup st_online alice demo_file)
   \<and> markAsSeen_lookup
        (sendFile_save 4 st_between alice demo_file (sendFile_lookup st_online alice demo_file))
        bob [(''senderId'', JStr ''A'')]
       = Some (db st_between,
               \<lparr>participants = [''A'', ''B''],
                messages = [\<lparr>senderId = ''A'', receiverId = ''B'', fileData = ''aGk='',
                             fileName = ''a.txt'', fileType = ''text/plain'', isFile = True,
                             timestamp = 4, seen = False\<rparr>]\<rparr>,
               [])
   \<and> sendFile_lookup
        (sendFile_save 4 st_between alice demo_file (sendFile_lookup st_online alice demo_file))
        bob reply_file
       = markAsSeen_lookup
        (sendFile_save 4 st_between alice demo_file (sendFile_lookup st_online alice demo_file))
        bob [(''senderId'', JStr ''A'')]"
  using conversation_key_symmetric
    [where a = "''B''" and b = "''A''" and d = "[]" and p = demo_file and s' = bob
       and q = "[(''senderId'', JStr ''A'')]" and s = alice and p' = reply_file
       and ?st1.0 = st_between and ?st0.0 = st_online and now = 4]
  by (simp add: st_online_eq st_between_eq sendFile_lookup_def sendFile_save_def
        markAsSeen_lookup_def alice_def bob_def demo_file_def reply_file_def model_defs)

subsection \<open>The sender of an event\<close>

lemma step_sockets:
  assumes "x \<in> set (sockets (state (step v flt now st inp)))"
  shows "x \<in> set (sockets st) \<or> (\<exists>token. inp = Connection (sid x) token \<and> v token = Some (userId x))"
proof (cases inp)
  case (Connection i token)
  with assms show ?thesis
    by (cases "v token") (auto simp: step_def idle_def on_connection_def Let_def split: if_splits)
next
  case (Event i ev)
  show ?thesis
  proof (cases "find (\<lambda>s. sid s = i) (sockets st)")
    case None
    with Event assms show ?thesis by (simp add: step_def idle_def)
  next
    case (Some s)
    show ?thesis
    proof (cases "ev = Disconnect")
      case True
      with Event Some assms show ?thesis
        by (auto simp: step_def on_disconnect_def Let_def split: if_splits)
    next
      case False
      from on_event_presence [OF False, of flt now st s] assms Event Some show ?thesis
        by (simp add: step_def)
    qed
  qed
qed

lemma run_sockets:
  "x \<in> set (sockets (run v st ins))
   \<Longrightarrow> x \<in> set (sockets st)
       \<or> (\<exists>flt now token. (flt, now, Connection (sid x) token) \<in> set ins \<and> v token = Some (userId x))"
proof (induction ins arbitrary: st)
  case Nil
  then show ?case by simp
next
  case (Cons a ins)
  obtain flt now inp where a: "a = (flt, now, inp)" by (cases a) auto
  from Cons.prems a have "x \<in> set (sockets (run v (state (step v flt now st inp)) ins))"
    by simp
  from Cons.IH [OF this] show ?case
  proof
    assume "x \<in> set (sockets (state (step v flt now st inp)))"
    from step_sockets [OF this] a show ?thesis by auto
  next
    assume "\<exists>flt now token. (flt, now, Connection (sid x) token) \<in> set ins \<and> v token = Some (userId x)"
    then show ?thesis by auto
  qed
qed

lemma on_event_sender:
  assumes "(t, name, obj) \<in> set (emitted (on_event flt now st s ev))"
  shows "(name \<in> {''typing'', ''stopTyping'', ''receiveFile''}
            \<longrightarrow> map_of obj ''senderId'' = Some (Val (JStr (userId s))))
       \<and> (name = ''messageSeen'' \<longrightarrow> map_of obj ''receiverId'' = Some (Val (JStr (userId s))))"
proof (cases ev)
  case (Typing a)
  with assms show ?thesis
    by (cases a) (auto simp: on_typing_def throw_def Let_def)
next
  case (StopTyping a)
  with assms show ?thesis
    by (cases a) (auto simp: on_stopTyping_def throw_def Let_def)
next
  case (SendFile a)
  with assms show ?thesis
    by (cases a)
       (auto simp: on_sendFile_def newMessage_def throw_def Let_def split: sum.splits if_splits)
next
  case (MarkAsSeen a)
  with assms show ?thesis
    by (cases a)
       (auto simp: on_markAsSeen_def throw_def Let_def split: option.splits if_splits)
next
  case Disconnect
  with assms show ?thesis
    by (auto simp: on_disconnect_def Let_def split: if_splits)
qed

lemma sendFile_state:
  "state (on_sendFile flt now st s p) = st
   \<or> (flt = NoFault \<and> truthy (field p ''receiverId'') \<and> truthy (field p ''fileData'')
        \<and> truthy (field p ''fileName'') \<and> truthy (field p ''fileType''))"
  by (cases flt) (auto simp: on_sendFile_def Let_def split: sum.splits)

lemma sendFile_messages:
  assumes "c' \<in> set (db (state (on_sendFile flt now st s p)))" and "m \<in> set (messages c')"
  shows "senderId m = userId s \<or> (\<exists>c\<in>set (db st). m \<in> set (messages c))"
proof -
  from sendFile_state [of flt now st s p] show ?thesis
  proof
    assume "state (on_sendFile flt now st s p) = st"
    with assms show ?thesis by auto
  next
    assume ok: "flt = NoFault \<and> truthy (field p ''receiverId'') \<and> truthy (field p ''fileData'')
        \<and> truthy (field p ''fileName'') \<and> truthy (field p ''fileType'')"
    then have v: "truthy (field p ''receiverId'')" "truthy (field p ''fileData'')"
        "truthy (field p ''fileName'')" "truthy (field p ''fileType'')" and flt: "flt = NoFault"
      by simp_all
    from sendFile_db [OF v, of now st s] obtain before session after where
      d: "db (state (on_sendFile NoFault now st s p)) = before @ session # after"
         "messages session \<noteq> []"
         "last (messages session)
             = cast_message (newMessage s (field p ''receiverId'') (field p ''fileData'')
                               (field p ''fileName'') (field p ''fileType'') now)"
         "\<forall>c\<in>set (before @ after). c \<in> set (db st)"
         "\<forall>m\<in>set (butlast (messages session)). \<exists>c\<in>set (db st). m \<in> set (messages c)"
      by blast
    from assms(1) d(1) flt consider "c' \<in> set (before @ after)" | "c' = session" by auto
    then show ?thesis
    proof cases
      case 1
      with d(4) assms(2) show ?thesis by blast
    next
      case 2
      from d(2) have "messages session = butlast (messages session) @ [last (messages session)]"
        by simp
      with assms(2) 2 have "m \<in> set (butlast (messages session)) \<or> m = last (messages session)"
        by (metis Un_iff empty_iff insert_iff list.set(1) list.set(2) set_append)
      then show ?thesis
      proof
        assume "m \<in> set (butlast (messages session))"
        with d(5) show ?thesis by blast
      next
        assume "m = last (messages session)"
        with d(3) show ?thesis by (simp add: cast_newMessage)
      qed
    qed
  qed
qed

lemma unchanged_message:
  assumes "c \<in> set d" and "m \<in> set (messages c)"
  shows "\<exists>c\<in>set d. \<exists>m0\<in>set (messages c). m = m0\<lparr>seen := seen m\<rparr>"
  using assms by (intro bexI [of _ c] bexI [of _ m]) simp_all

lemma markAsSeen_messages:
  assumes "c' \<in> set (db (state (on_markAsSeen flt st s p)))" and "m \<in> set (messages c')"
  shows "\<exists>c\<in>set (db st). \<exists>m0\<in>set (messages c). m = m0\<lparr>seen := seen m\<rparr>"
proof (cases "flt = NoFault")
  case False
  then have "state (on_markAsSeen flt st s p) = st"
    by (cases flt) (auto simp: on_markAsSeen_def Let_def split: option.splits)
  with assms show ?thesis by (simp add: unchanged_message)
next
  case True
  show ?thesis
  proof (cases "findOne (db st) (sort2 (field p ''senderId'') (JStr (userId s)))")
    case None
    with True have "state (on_markAsSeen flt st s p) = st"
      by (simp add: on_markAsSeen_def Let_def)
    with assms show ?thesis by (simp add: unchanged_message)
  next
    case (Some t)
    then obtain b c a where t: "t = (b, c, a)" by (cases t) auto
    from findOne_SomeD [OF Some [unfolded t]] have d: "db st = b @ c # a" by simp
    from markAsSeen_found [OF Some [unfolded t]] True assms(1)
    consider "c' \<in> set (b @ a)" | "c' = c\<lparr>messages := map (mark (field p ''senderId'')) (messages c)\<rparr>"
      by auto
    then show ?thesis
    proof cases
      case 1
      with d have "c' \<in> set (db st)" by auto
      with assms(2) show ?thesis by (simp add: unchanged_message)
    next
      case 2
      with assms(2) obtain m0 where m0: "m0 \<in> set (messages c)" "m = mark (field p ''senderId'') m0"
        by auto
      then have "m = m0\<lparr>seen := seen m\<rparr>" by (simp add: mark_def)
      with m0(1) d show ?thesis by auto
    qed
  qed
qed

lemma on_event_messages:
  assumes "c' \<in> set (db (state (on_event flt now st s ev)))" and "m \<in> set (messages c')"
  shows "senderId m = userId s
       \<or> (\<exists>c\<in>set (db st). \<exists>m0\<in>set (messages c). m = m0\<lparr>seen := seen m\<rparr>)"
proof -
  have same: ?thesis if "db (state (on_event flt now st s ev)) = db st"
    using that assms by (simp add: unchanged_message)
  show ?thesis
  proof (cases ev)
    case (Typing a)
    then show ?thesis by (cases a) (auto intro!: same simp: on_typing_def throw_def Let_def)
  next
    case (StopTyping a)
    then show ?thesis by (cases a) (auto intro!: same simp: on_stopTyping_def throw_def Let_def)
  next
    case (SendFile a)
    show ?thesis
    proof (cases a)
      case None
      with SendFile show ?thesis by (auto intro!: same simp: throw_def)
    next
      case (Some p)
      with SendFile assms sendFile_messages [of c' flt now st s p m] show ?thesis
        by (auto simp: unchanged_message)
    qed
  next
    case (MarkAsSeen a)
    show ?thesis
    proof (cases a)
      case None
      with MarkAsSeen show ?thesis by (auto intro!: same simp: throw_def)
    next
      case (Some p)
      with MarkAsSeen assms markAsSeen_messages [of c' flt st s p m] show ?thesis by auto
    qed
  next
    case Disconnect
    then show ?thesis by (auto intro!: same simp: on_disconnect_def Let_def)
  qed
qed

text \<open>
  Claim C10. Let \<open>s\<close> be the socket bound under the id \<open>i\<close> in a state the server
  reaches. Its user id is what \<^verbatim>\<open>jwt.verify\<close> returned for the token of a connection
  under that id. Whatever event and payload the client sends on it, every
  \<^verbatim>\<open>typing\<close>, \<^verbatim>\<open>stopTyping\<close> and \<^verbatim>\<open>receiveFile\<close> emitted carries that user id
  as \<^verbatim>\<open>senderId\<close>, every \<^verbatim>\<open>messageSeen\<close> carries it as \<^verbatim>\<open>receiverId\<close>, and
  every stored message afterwards either has it as its sender or is a message stored
  before, up to \<^verbatim>\<open>seen\<close>.
\<close>

theorem sender_is_authenticated_identity:
  assumes "find (\<lambda>x. sid x = i) (sockets (run v init ins)) = Some s"
  shows "(\<exists>flt0 now0 token. (flt0, now0, Connection i token) \<in> set ins \<and> v token = Some (userId s))
       \<and> (\<forall>(t, name, obj)\<in>set (emitted (step v flt now (run v init ins) (Event i ev))).
            (name \<in> {''typing'', ''stopTyping'', ''receiveFile''}
               \<longrightarrow> map_of obj ''senderId'' = Some (Val (JStr (userId s))))
          \<and> (name = ''messageSeen'' \<longrightarrow> map_of obj ''receiverId'' = Some (Val (JStr (userId s)))))
       \<and> (\<forall>c'\<in>set (db (state (step v flt now (run v init ins) (Event i ev)))).
            \<forall>m\<in>set (messages c').
              senderId m = userId s
              \<or> (\<exists>c\<in>set (db (run v init ins)). \<exists>m0\<in>set (messages c). m = m0\<lparr>seen := seen m\<rparr>))"
proof -
  from find_sid_Some [OF assms] have s: "s \<in> set (sockets (run v init ins))" "sid s = i"
    by simp_all
  from run_sockets [OF s(1)] s(2)
  have 1: "\<exists>flt0 now0 token. (flt0, now0, Connection i token) \<in> set ins \<and> v token = Some (userId s)"
    by (simp add: init_def)
  have st: "step v flt now (run v init ins) (Event i ev) = on_event flt now (run v init ins) s ev"
    using assms by (simp add: step_def)
  have 2: "\<forall>(t, name, obj)\<in>set (emitted (step v flt now (run v init ins) (Event i ev))).
            (name \<in> {''typing'', ''stopTyping'', ''receiveFile''}
               \<longrightarrow> map_of obj ''senderId'' = Some (Val (JStr (userId s))))
          \<and> (name = ''messageSeen'' \<longrightarrow> map_of obj ''receiverId'' = Some (Val (JStr (userId s))))"
    unfolding st using on_event_sender [of _ _ _ flt now "run v init ins" s ev] by fast
  have 3: "\<forall>c'\<in>set (db (state (step v flt now (run v init ins) (Event i ev)))).
            \<forall>m\<in>set (messages c').
              senderId m = userId s
              \<or> (\<exists>c\<in>set (db (run v init ins)). \<exists>m0\<in>set (messages c). m = m0\<lparr>seen := seen m\<rparr>)"
    unfolding st using on_event_messages [of _ flt now "run v init ins" s ev] by blast
  from 1 2 3 show ?thesis by blast
qed

text \<open>
  Witness for C10: Alice sends a file whose payload claims \<^verbatim>\<open>senderId: 'B'\<close>; the
  event emitted and the message stored name Alice.
\<close>

theorem sender_is_authenticated_identity_witness:
  "find (\<lambda>x. sid x = ''s1'') (sockets st_sent) = Some alice
   \<and> demo_verify (JStr ''tokenA'') = Some (userId alice)
   \<and> field spoofed_file ''senderId'' = JStr ''B''
   \<and> emitted (step demo_verify NoFault 9 st_sent (Event ''s1'' (SendFile (Some spoofed_file))))
       = [(ToRoom (JStr ''C''), ''receiveFile'',
            [(''senderId'', Val (JStr ''A'')), (''receiverId'', Val (JStr ''C'')),
             (''fileData'', Val (JStr ''aGk='')), (''fileName'', Val (JStr ''a.txt'')),
             (''fileType'', Val (JStr ''text/plain'')), (''isFile'', Flag True),
             (''timestamp'', Date 9)]),
          (ToRoom (JStr ''A''), ''receiveFile'',
            [(''senderId'', Val (JStr ''A'')), (''receiverId'', Val (JStr ''C'')),
             (''fileData'', Val (JStr ''aGk='')), (''fileName'', Val (JStr ''a.txt'')),
             (''fileType'', Val (JStr ''text/plain'')), (''isFile'', Flag True),
             (''timestamp'', Date 9)])]
   \<and> map (\<lambda>c. map senderId (messages c))
         (db (state (step demo_verify NoFault 9 st_sent (Event ''s1'' (SendFile (Some spoofed_file))))))
       = [[''A''], [''A'']]"
  using sender_is_authenticated_identity
    [where i = "''s1''" and v = demo_verify and s = alice and flt = NoFault and now = 9
       and ev = "SendFile (Some spoofed_file)"
       and ins = "[(NoFault, 0, Connection ''s1'' (JStr ''tokenA'')),
                   (NoFault, 1, Connection ''s2'' (JStr ''tokenB'')),
                   (NoFault, 2, Connection ''s3'' (JStr ''tokenC'')),
                   (NoFault, 3, Event ''s1'' (SendFile (Some demo_file)))]"]
  by (simp add: st_sent_def [symmetric])
     (simp add: st_sent_eq alice_def bob_def carol_def spoofed_file_def demo_verify_def model_defs)


end
